theory Spec2Isabelle
  imports Complex_Main "HOL-Library.Sublist"
begin

section \<open>Domain entities (core/domain.py)\<close>

text \<open>
  A UUID is represented by its canonical text, the string that Python's \<open>str\<close> returns
  for it. \<open>AgentId\<close> and \<open>TaskId\<close> are the frozen dataclasses wrapping one UUID; their
  \<open>__str__\<close> is the text of the wrapped value. A \<open>datetime\<close> is a point on a discrete
  time line. A \<open>Dict[str, Any]\<close> payload is an association list of texts.
\<close>

type_synonym uuid = string
type_synonym datetime = nat
type_synonym payload = "(string \<times> string) list"

datatype agent_id = AgentId uuid
datatype task_id = TaskId uuid

fun str_agent_id :: "agent_id \<Rightarrow> string" where
  "str_agent_id (AgentId v) = v"

fun str_task_id :: "task_id \<Rightarrow> string" where
  "str_task_id (TaskId v) = v"

datatype agent_type = PROMETHEUS | DAEDALUS | LOGOS | ODYSSEUS | THEMIS

datatype task_status = PENDING | IN_PROGRESS | COMPLETED | FAILED | CANCELLED

datatype priority = LOW | MEDIUM | HIGH | CRITICAL

text \<open>
  An exception, with the text \<open>str(e)\<close> gives. \<open>Exception\<close> and \<open>ValueError\<close> are
  instances of the class \<open>Exception\<close>. \<open>CancelledError\<close> (of \<open>asyncio\<close>),
  \<open>KeyboardInterrupt\<close> and \<open>SystemExit\<close> derive from \<open>BaseException\<close> only: a handler
  \<open>except Exception\<close> does not catch them. \<open>isinstance_Exception\<close> is the test that
  such a handler makes.
\<close>

datatype exn =
    Exception string
  | ValueError string
  | CancelledError string
  | KeyboardInterrupt string
  | SystemExit string

fun str_exn :: "exn \<Rightarrow> string" where
  "str_exn (Exception s) = s"
| "str_exn (ValueError s) = s"
| "str_exn (CancelledError s) = s"
| "str_exn (KeyboardInterrupt s) = s"
| "str_exn (SystemExit s) = s"

fun isinstance_Exception :: "exn \<Rightarrow> bool" where
  "isinstance_Exception (Exception s) = True"
| "isinstance_Exception (ValueError s) = True"
| "isinstance_Exception (CancelledError s) = False"
| "isinstance_Exception (KeyboardInterrupt s) = False"
| "isinstance_Exception (SystemExit s) = False"

record task =
  task_id :: task_id
  agent_id :: agent_id
  name :: string
  description :: string
  priority :: priority
  status :: task_status
  created_at :: datetime
  updated_at :: datetime
  completed_at :: "datetime option"
  result :: "payload option"
  error :: "string option"
  metadata :: payload

text \<open>
  The three \<open>mark_*\<close> methods assign fields and read the clock; the readings of
  \<open>datetime.utcnow()\<close> are arguments, in the order the method takes them.
\<close>

definition mark_in_progress :: "datetime \<Rightarrow> task \<Rightarrow> task" where
  "mark_in_progress now t = t\<lparr>status := IN_PROGRESS, updated_at := now\<rparr>"

definition mark_completed :: "payload \<Rightarrow> datetime \<Rightarrow> datetime \<Rightarrow> task \<Rightarrow> task" where
  "mark_completed res now1 now2 t =
     t\<lparr>status := COMPLETED, result := Some res, completed_at := Some now1, updated_at := now2\<rparr>"

definition mark_failed :: "string \<Rightarrow> datetime \<Rightarrow> task \<Rightarrow> task" where
  "mark_failed err now t = t\<lparr>status := FAILED, error := Some err, updated_at := now\<rparr>"

text \<open>The statuses from which the state machine has no transition.\<close>

fun terminal :: "task_status \<Rightarrow> bool" where
  "terminal COMPLETED = True"
| "terminal FAILED = True"
| "terminal CANCELLED = True"
| "terminal _ = False"

text \<open>
  A \<open>SafetyCheck\<close> with the three fields that decisions read: the kind of check, its
  status (\<open>passed\<close>, \<open>warning\<close> or \<open>failed\<close>) and its severity (\<open>low\<close>, \<open>medium\<close>,
  \<open>high\<close> or \<open>critical\<close>), all three texts as in the source. The generated id and
  timestamp, the diagnostic message and the metadata dictionary are left out: no
  branch of the code depends on them.
\<close>

record safety_check =
  check_type :: string
  check_status :: string
  severity :: string

text \<open>
  The content of a message is a dictionary. The dictionaries the modelled code builds
  are distinguished by their \<open>type\<close> (or \<open>alert_type\<close>) entry and are a tagged union
  here, each constructor holding the entries that vary; \<open>General\<close> is any other
  dictionary.
\<close>

datatype content =
    General payload
  | Behavior_audit_request string
  | Interpretability_audit
  | Safety_violation_alert string "safety_check list" bool
  | Emergency_halt "safety_check list"
  | Veto_notification string

record message_rec =
  msg_id :: uuid
  sender_id :: agent_id
  receiver_id :: agent_id
  content :: content
  timestamp :: datetime
  message_type :: string

section \<open>The in-memory repository (infrastructure/repositories.py)\<close>

text \<open>
  \<open>InMemoryRepository._storage\<close> is a dictionary from \<open>str(entity.id)\<close> to the entity.
  An entity is any object; what \<open>save\<close> asks of it is whether it has an attribute
  \<open>id\<close>, and the text of that attribute. The argument \<open>id_attr\<close> is that lookup:
  \<open>None\<close> stands for an object without the attribute. An identifier handed to
  \<open>get_by_id\<close> or \<open>delete\<close> is an \<open>AgentId\<close>, a \<open>TaskId\<close> or a bare UUID, and the key
  is its text.
\<close>

datatype ident = Agent_ident agent_id | Task_ident task_id | Uuid_ident uuid

fun str_ident :: "ident \<Rightarrow> string" where
  "str_ident (Agent_ident a) = str_agent_id a"
| "str_ident (Task_ident t) = str_task_id t"
| "str_ident (Uuid_ident u) = u"

type_synonym 'e storage = "string \<rightharpoonup> 'e"

definition InMemoryRepository :: "'e storage" where
  "InMemoryRepository = Map.empty"

definition save :: "('e \<Rightarrow> ident option) \<Rightarrow> 'e \<Rightarrow> 'e storage \<Rightarrow> exn + 'e storage" where
  "save id_attr entity st =
     (case id_attr entity of
        Some i \<Rightarrow> Inr (st(str_ident i \<mapsto> entity))
      | None \<Rightarrow> Inl (ValueError ''Entity must have an 'id' attribute''))"

definition get_by_id :: "ident \<Rightarrow> 'e storage \<Rightarrow> 'e option" where
  "get_by_id entity_id st = st (str_ident entity_id)"

definition delete :: "ident \<Rightarrow> 'e storage \<Rightarrow> bool \<times> 'e storage" where
  "delete entity_id st =
     (if str_ident entity_id \<in> dom st
      then (True, st(str_ident entity_id := None))
      else (False, st))"

text \<open>The attribute \<open>id\<close> of a task: every \<open>Task\<close> has one.\<close>

definition task_id_attr :: "task \<Rightarrow> ident option" where
  "task_id_attr t = Some (Task_ident (task_id t))"

section \<open>Task execution by an agent (core/base_agent.py)\<close>

text \<open>
  \<open>BaseAgent.execute_task\<close> depends on three things the agent is configured with:
  \<^item> \<open>repo\<close>, the \<open>save\<close> method of its task repository, or \<open>None\<close> when no repository
    is configured. The repository is the abstract \<open>Repository\<close>: its state is of any
    type \<open>'s\<close>, and a \<open>save\<close> either raises (\<open>Inl\<close>, the state as it was) or yields
    the new state;
  \<^item> \<open>checks\<close>, the method \<open>_perform_safety_checks\<close>, which subclasses override (the
    base implementation returns the empty list);
  \<^item> \<open>action\<close>, the abstract method \<open>_execute_task_internal\<close>, which returns a result
    or raises.
  \<open>clock n\<close> is the value of the \<open>n\<close>-th reading of \<open>datetime.utcnow()\<close> during the
  call. Logging is not modelled.

  \<open>execute_task_try\<close> is the body of the \<open>try\<close> statement and says how control leaves
  it. \<open>execute_task\<close> adds the handler \<open>except Exception\<close> and the statements after
  the \<open>try\<close>, which \<open>save_and_return\<close> is: an exception raised in the \<open>try\<close> block
  is handled when it is an instance of \<open>Exception\<close>, and leaves the call otherwise,
  with the task as it was when the exception was raised and without a further save. The
  task is a mutable object, so its last state is part of the result also when the call
  raises.
\<close>

datatype try_exit = Fell_through | Returned_early | Raised_in_try exn

datatype outcome = Returned | Raised exn

definition execute_task_try ::
  "(task \<Rightarrow> 's \<Rightarrow> exn + 's) option \<Rightarrow> (task \<Rightarrow> exn + safety_check list) \<Rightarrow>
   (task \<Rightarrow> exn + payload) \<Rightarrow> (nat \<Rightarrow> datetime) \<Rightarrow> task \<Rightarrow> 's \<Rightarrow> try_exit \<times> task \<times> 's" where
  "execute_task_try repo checks action clock t0 s =
     (let t = mark_in_progress (clock 0) t0 in
      case (case repo of None \<Rightarrow> Inr s | Some sv \<Rightarrow> sv t s) of
        Inl e \<Rightarrow> (Raised_in_try e, t, s)
      | Inr s1 \<Rightarrow>
          (case checks t of
             Inl e \<Rightarrow> (Raised_in_try e, t, s1)
           | Inr safety_results \<Rightarrow>
               if list_ex (\<lambda>check. check_status check = ''failed'') safety_results
               then (Returned_early, mark_failed ''Safety check failed'' (clock 1) t, s1)
               else (case action t of
                       Inl e \<Rightarrow> (Raised_in_try e, t, s1)
                     | Inr res \<Rightarrow>
                         (Fell_through, mark_completed res (clock 1) (clock 2) t, s1))))"

definition save_and_return ::
  "(task \<Rightarrow> 's \<Rightarrow> exn + 's) option \<Rightarrow> task \<Rightarrow> 's \<Rightarrow> outcome \<times> task \<times> 's" where
  "save_and_return repo t s =
     (case repo of
        None \<Rightarrow> (Returned, t, s)
      | Some sv \<Rightarrow>
          (case sv t s of
             Inl e \<Rightarrow> (Raised e, t, s)
           | Inr s' \<Rightarrow> (Returned, t, s')))"

definition execute_task ::
  "(task \<Rightarrow> 's \<Rightarrow> exn + 's) option \<Rightarrow> (task \<Rightarrow> exn + safety_check list) \<Rightarrow>
   (task \<Rightarrow> exn + payload) \<Rightarrow> (nat \<Rightarrow> datetime) \<Rightarrow> task \<Rightarrow> 's \<Rightarrow> outcome \<times> task \<times> 's" where
  "execute_task repo checks action clock t0 s =
     (case execute_task_try repo checks action clock t0 s of
        (Returned_early, t, s1) \<Rightarrow> (Returned, t, s1)
      | (Raised_in_try e, t, s1) \<Rightarrow>
          if isinstance_Exception e
          then save_and_return repo (mark_failed (str_exn e) (clock 1) t) s1
          else (Raised e, t, s1)
      | (Fell_through, t, s1) \<Rightarrow> save_and_return repo t s1)"

text \<open>
  A repository that persists the value it is handed at each \<open>save\<close>, as
  \<open>RedisRepository\<close> does by serialising the entity: its state is the list of the states
  saved so far, oldest first.
\<close>

definition recording_save :: "task \<Rightarrow> task list \<Rightarrow> exn + task list" where
  "recording_save t saved = Inr (saved @ [t])"

section \<open>The task service (services/task_service.py)\<close>

text \<open>
  The service works on the repository of the agent manager, here the in-memory one.
  A task is named by the text of its id; \<open>parse_uuid\<close> is the constructor \<open>UUID\<close>,
  \<open>None\<close> where it raises \<open>ValueError\<close>. \<open>get_task\<close> turns every exception into
  \<open>None\<close>.
\<close>

definition get_task :: "(string \<Rightarrow> uuid option) \<Rightarrow> string \<Rightarrow> task storage \<Rightarrow> task option" where
  "get_task parse_uuid tid st =
     (case parse_uuid tid of
        None \<Rightarrow> None
      | Some u \<Rightarrow> get_by_id (Task_ident (TaskId u)) st)"

text \<open>
  \<open>cancel_task\<close>. The task that \<open>get_by_id\<close> returns is the stored object itself, so the
  assignment to its status changes the storage under the key it was found at, before
  \<open>save\<close> stores it again under the text of its id. An exception of \<open>save\<close> is caught
  and gives \<open>False\<close>.
\<close>

definition cancel_task ::
  "(string \<Rightarrow> uuid option) \<Rightarrow> string \<Rightarrow> task storage \<Rightarrow> bool \<times> task storage" where
  "cancel_task parse_uuid tid st =
     (case get_task parse_uuid tid st of
        None \<Rightarrow> (False, st)
      | Some t \<Rightarrow>
          if status t \<notin> set [PENDING, IN_PROGRESS] then (False, st)
          else
            (let t' = t\<lparr>status := CANCELLED, updated_at := updated_at t\<rparr>;
                 st1 = (case parse_uuid tid of
                          None \<Rightarrow> st
                        | Some u \<Rightarrow> st(str_ident (Task_ident (TaskId u)) \<mapsto> t'))
             in case save task_id_attr t' st1 of
                  Inl e \<Rightarrow> (False, st1)
                | Inr st2 \<Rightarrow> (True, st2)))"

section \<open>The in-memory event bus (infrastructure/event_bus.py)\<close>

text \<open>
  A subscriber's callback is a callable; the ones the system registers are the bound
  methods \<open>_handle_message\<close> of agents.
\<close>

datatype callback = Handle_message agent_id | Callable string

text \<open>
  \<open>_message_queue\<close> is \<open>asyncio.Queue()\<close>, created without a \<open>maxsize\<close>: one queue for
  all receivers, of unlimited length, in which \<open>put\<close> appends at once and \<open>get\<close> takes
  the oldest message. It is the list of the waiting messages, oldest first.
\<close>

record in_memory_event_bus =
  subscribers :: "string \<rightharpoonup> callback"
  message_queue :: "message_rec list"
  running :: bool

definition InMemoryEventBus :: in_memory_event_bus where
  "InMemoryEventBus = \<lparr>subscribers = Map.empty, message_queue = [], running = False\<rparr>"

text \<open>
  \<open>publish\<close> puts the message and makes sure a processor task runs: whether or not
  \<open>_running\<close> held, it holds afterwards.
\<close>

definition publish :: "message_rec \<Rightarrow> in_memory_event_bus \<Rightarrow> in_memory_event_bus" where
  "publish m bus = bus\<lparr>message_queue := message_queue bus @ [m], running := True\<rparr>"

definition subscribe :: "agent_id \<Rightarrow> callback \<Rightarrow> in_memory_event_bus \<Rightarrow> in_memory_event_bus" where
  "subscribe aid cb bus = bus\<lparr>subscribers := (subscribers bus)(str_agent_id aid \<mapsto> cb)\<rparr>"

definition unsubscribe :: "agent_id \<Rightarrow> in_memory_event_bus \<Rightarrow> in_memory_event_bus" where
  "unsubscribe aid bus =
     (if str_agent_id aid \<in> dom (subscribers bus)
      then bus\<lparr>subscribers := (subscribers bus)(str_agent_id aid := None)\<rparr>
      else bus)"

definition stop_bus :: "in_memory_event_bus \<Rightarrow> in_memory_event_bus" where
  "stop_bus bus = bus\<lparr>running := False\<rparr>"

text \<open>
  One turn of the loop of \<open>_message_processor\<close>. The loop runs while \<open>_running\<close> holds.
  With an empty queue the wait times out and the turn changes nothing. Otherwise the
  oldest message leaves the queue and, when its receiver has a subscriber at that
  moment, the subscriber's callback is called with it: the second component is that
  call. A message without a subscriber is dropped. An exception of the callback that
  is an instance of \<open>Exception\<close> is logged by the loop, which goes on.
\<close>

definition message_processor :: "in_memory_event_bus \<Rightarrow> in_memory_event_bus \<times> (callback \<times> message_rec) option" where
  "message_processor bus =
     (if \<not> running bus then (bus, None)
      else case message_queue bus of
             [] \<Rightarrow> (bus, None)
           | m # rest \<Rightarrow>
               (bus\<lparr>message_queue := rest\<rparr>,
                case subscribers bus (str_agent_id (receiver_id m)) of
                  None \<Rightarrow> None
                | Some cb \<Rightarrow> Some (cb, m)))"

text \<open>
  The bus is shared by coroutines that run one at a time and give up control only at
  an \<open>await\<close>. A run of the system is therefore a sequence of events on the bus, taken
  in any order: a publish, a subscribe, an unsubscribe, a stop, or one turn of the
  processor. The state of a run is the bus and the calls of callbacks made so far,
  oldest first.
\<close>

datatype event =
    Publish message_rec
  | Subscribe agent_id callback
  | Unsubscribe agent_id
  | Stop
  | Process

fun bus_step :: "event \<Rightarrow> in_memory_event_bus \<times> (callback \<times> message_rec) list \<Rightarrow>
    in_memory_event_bus \<times> (callback \<times> message_rec) list" where
  "bus_step (Publish m) (bus, calls) = (publish m bus, calls)"
| "bus_step (Subscribe aid cb) (bus, calls) = (subscribe aid cb bus, calls)"
| "bus_step (Unsubscribe aid) (bus, calls) = (unsubscribe aid bus, calls)"
| "bus_step Stop (bus, calls) = (stop_bus bus, calls)"
| "bus_step Process (bus, calls) =
     (case message_processor bus of
        (bus', None) \<Rightarrow> (bus', calls)
      | (bus', Some c) \<Rightarrow> (bus', calls @ [c]))"

fun run :: "event list \<Rightarrow> in_memory_event_bus \<times> (callback \<times> message_rec) list \<Rightarrow>
    in_memory_event_bus \<times> (callback \<times> message_rec) list" where
  "run [] st = st"
| "run (e # es) st = run es (bus_step e st)"

text \<open>The messages a run publishes, in publish order, and the order of a list.\<close>

fun published :: "event list \<Rightarrow> message_rec list" where
  "published [] = []"
| "published (Publish m # es) = m # published es"
| "published (_ # es) = published es"

fun precedes :: "'a list \<Rightarrow> 'a \<Rightarrow> 'a \<Rightarrow> bool" where
  "precedes [] a b = False"
| "precedes (x # xs) a b = ((x = a \<and> b \<in> set xs) \<or> precedes xs a b)"

definition from_to :: "agent_id \<Rightarrow> agent_id \<Rightarrow> message_rec \<Rightarrow> bool" where
  "from_to s r m = (sender_id m = s \<and> receiver_id m = r)"

text \<open>
  What a run keeps true, for the messages \<open>pub\<close> published so far: they are the
  messages the processor has taken, followed by the waiting ones, and the calls made
  are among the taken ones, in that order.
\<close>

definition bus_inv :: "message_rec list \<Rightarrow> in_memory_event_bus \<times> (callback \<times> message_rec) list \<Rightarrow> bool" where
  "bus_inv pub st =
     (\<exists>taken. pub = taken @ message_queue (fst st) \<and> subseq (map snd (snd st)) taken)"

section \<open>Agents and their messages (core/base_agent.py)\<close>

text \<open>
  What the agents share and what the environment supplies: the event bus (one object,
  referred to by every agent that is configured with it), and the values that the
  coming calls of \<open>uuid4()\<close> and \<open>datetime.utcnow()\<close> will return, next one at
  index 0. The bus is the in-memory one, which the manager creates unless told to use
  Redis; \<open>RedisEventBus\<close>, which serialises the content of a message, is not
  modelled, and nothing below speaks about it.
\<close>

record world =
  event_bus :: in_memory_event_bus
  uuid4 :: "nat \<Rightarrow> uuid"
  utcnow :: "nat \<Rightarrow> datetime"

text \<open>
  The fields of \<open>BaseAgent\<close>. \<open>has_event_bus\<close> tells whether \<open>_event_bus\<close> is set; the
  bus itself is in the world.
\<close>

record base_agent =
  agent_ident :: agent_id
  agent_kind :: "agent_type option"
  has_event_bus :: bool
  is_active :: bool
  subordinates :: "agent_id list"
  supervisor :: "agent_id option"

text \<open>
  The constructor \<open>Message(sender_id, receiver_id, content, message_type)\<close>: the id and
  the timestamp come from the default factories.
\<close>

definition Message :: "agent_id \<Rightarrow> agent_id \<Rightarrow> content \<Rightarrow> string \<Rightarrow> world \<Rightarrow> message_rec \<times> world" where
  "Message s r c mt w =
     (\<lparr>msg_id = uuid4 w 0, sender_id = s, receiver_id = r, content = c,
       timestamp = utcnow w 0, message_type = mt\<rparr>,
      w\<lparr>uuid4 := (\<lambda>n. uuid4 w (Suc n)), utcnow := (\<lambda>n. utcnow w (Suc n))\<rparr>)"

definition start :: "'a base_agent_scheme \<Rightarrow> world \<Rightarrow> 'a base_agent_scheme \<times> world" where
  "start a w =
     (a\<lparr>is_active := True\<rparr>,
      if has_event_bus a
      then w\<lparr>event_bus := subscribe (agent_ident a) (Handle_message (agent_ident a)) (event_bus w)\<rparr>
      else w)"

definition stop :: "'a base_agent_scheme \<Rightarrow> world \<Rightarrow> 'a base_agent_scheme \<times> world" where
  "stop a w =
     (a\<lparr>is_active := False\<rparr>,
      if has_event_bus a
      then w\<lparr>event_bus := unsubscribe (agent_ident a) (event_bus w)\<rparr>
      else w)"

definition add_subordinate :: "agent_id \<Rightarrow> 'a base_agent_scheme \<Rightarrow> 'a base_agent_scheme" where
  "add_subordinate sub a =
     (if sub \<notin> set (subordinates a) then a\<lparr>subordinates := subordinates a @ [sub]\<rparr> else a)"

text \<open>\<open>list.remove\<close> takes out the first occurrence.\<close>

definition remove_subordinate :: "agent_id \<Rightarrow> 'a base_agent_scheme \<Rightarrow> 'a base_agent_scheme" where
  "remove_subordinate sub a =
     (if sub \<in> set (subordinates a) then a\<lparr>subordinates := remove1 sub (subordinates a)\<rparr> else a)"

definition set_supervisor :: "agent_id \<Rightarrow> 'a base_agent_scheme \<Rightarrow> 'a base_agent_scheme" where
  "set_supervisor supervisor_id a = a\<lparr>supervisor := Some supervisor_id\<rparr>"

text \<open>Without an event bus \<open>send_message\<close> logs an error and returns.\<close>

definition send_message ::
  "'a base_agent_scheme \<Rightarrow> agent_id \<Rightarrow> content \<Rightarrow> string \<Rightarrow> world \<Rightarrow> world" where
  "send_message a receiver c mt w =
     (if \<not> has_event_bus a then w
      else case Message (agent_ident a) receiver c mt w of
             (m, w') \<Rightarrow> w'\<lparr>event_bus := publish m (event_bus w')\<rparr>)"

fun send_each :: "'a base_agent_scheme \<Rightarrow> agent_id list \<Rightarrow> content \<Rightarrow> string \<Rightarrow> world \<Rightarrow> world" where
  "send_each a [] c mt w = w"
| "send_each a (sub # subs) c mt w = send_each a subs c mt (send_message a sub c mt w)"

definition broadcast_to_subordinates :: "'a base_agent_scheme \<Rightarrow> content \<Rightarrow> string \<Rightarrow> world \<Rightarrow> world" where
  "broadcast_to_subordinates a c mt w = send_each a (subordinates a) c mt w"

text \<open>
  A message without the generated parts (id, timestamp): sender, receiver, kind and
  content. The outbox of a world lists the messages waiting on the bus in this form,
  oldest first.
\<close>

definition envelope :: "message_rec \<Rightarrow> agent_id \<times> agent_id \<times> string \<times> content" where
  "envelope m = (sender_id m, receiver_id m, message_type m, content m)"

definition outbox :: "world \<Rightarrow> (agent_id \<times> agent_id \<times> string \<times> content) list" where
  "outbox w = map envelope (message_queue (event_bus w))"

section \<open>The safety overseer (agents/agent_themis.py)\<close>

text \<open>
  \<open>AgentThemis\<close> extends \<open>BaseAgent\<close>. The alert thresholds are the dictionary with the
  four keys \<open>low\<close>, \<open>medium\<close>, \<open>high\<close> and \<open>critical\<close>. Scores are floating-point numbers
  in the source and rational numbers here; the comparisons below are between a score
  and a threshold, which floating point decides exactly (no score is NaN).
\<close>

record thresholds =
  low :: rat
  medium :: rat
  high :: rat
  critical :: rat

record themis = base_agent +
  veto_power_active :: bool
  alert_thresholds :: thresholds
  audit_history :: "safety_check list"

definition initial_thresholds :: thresholds where
  "initial_thresholds = \<lparr>low = 3 / 10, medium = 6 / 10, high = 8 / 10, critical = 9 / 10\<rparr>"

text \<open>
  The analyses behind the five checks are methods of the class, placeholders in the
  source ("would analyze actual behavior data"). They are a record of functions, and
  \<open>placeholder_analysis\<close> is what the source returns now.
\<close>

record analysis =
  calculate_alignment_score :: "agent_id \<Rightarrow> rat"
  detect_gaming_patterns :: "agent_id \<Rightarrow> string list"
  calculate_goal_drift :: "agent_id \<Rightarrow> rat"
  calculate_interpretability_score :: "agent_id \<Rightarrow> rat"
  assess_containment :: "agent_id \<Rightarrow> rat"

definition placeholder_analysis :: analysis where
  "placeholder_analysis =
     \<lparr>calculate_alignment_score = (\<lambda>_. 85 / 100),
      detect_gaming_patterns = (\<lambda>_. []),
      calculate_goal_drift = (\<lambda>_. 15 / 100),
      calculate_interpretability_score = (\<lambda>_. 75 / 100),
      assess_containment = (\<lambda>_. 90 / 100)\<rparr>"

text \<open>
  Each check starts from status \<open>passed\<close> and severity \<open>low\<close> and runs its \<open>if\<close>
  statements in order, each overwriting what the earlier ones set.
\<close>

definition audit_behavioral_alignment ::
  "themis \<Rightarrow> analysis \<Rightarrow> agent_id \<Rightarrow> world \<Rightarrow> safety_check \<times> world" where
  "audit_behavioral_alignment th an aid w =
     (let w' = send_message th aid (Behavior_audit_request (str_agent_id aid)) ''safety_audit'' w;
          alignment_score = calculate_alignment_score an aid;
          (st0, sv0) = (''passed'', ''low'');
          (st1, sv1) = (if alignment_score < medium (alert_thresholds th)
                        then (''warning'', ''medium'') else (st0, sv0));
          (st2, sv2) = (if alignment_score < high (alert_thresholds th)
                        then (''failed'', ''high'') else (st1, sv1));
          sv3 = (if alignment_score < critical (alert_thresholds th) then ''critical'' else sv2)
      in (\<lparr>check_type = ''behavioral_alignment'', check_status = st2, severity = sv3\<rparr>, w'))"

definition audit_specification_gaming :: "themis \<Rightarrow> analysis \<Rightarrow> agent_id \<Rightarrow> safety_check" where
  "audit_specification_gaming th an aid =
     (let gaming_indicators = detect_gaming_patterns an aid;
          (st0, sv0) = (''passed'', ''low'');
          (st1, sv1) = (if length gaming_indicators > 2
                        then (''warning'', ''medium'') else (st0, sv0));
          (st2, sv2) = (if length gaming_indicators > 4
                        then (''failed'', ''high'') else (st1, sv1))
      in \<lparr>check_type = ''specification_gaming'', check_status = st2, severity = sv2\<rparr>)"

definition audit_goal_alignment :: "themis \<Rightarrow> analysis \<Rightarrow> agent_id \<Rightarrow> safety_check" where
  "audit_goal_alignment th an aid =
     (let goal_drift_score = calculate_goal_drift an aid;
          (st0, sv0) = (''passed'', ''low'');
          (st1, sv1) = (if goal_drift_score > medium (alert_thresholds th)
                        then (''warning'', ''medium'') else (st0, sv0));
          (st2, sv2) = (if goal_drift_score > high (alert_thresholds th)
                        then (''failed'', ''high'') else (st1, sv1))
      in \<lparr>check_type = ''goal_alignment'', check_status = st2, severity = sv2\<rparr>)"

definition audit_interpretability ::
  "themis \<Rightarrow> analysis \<Rightarrow> agent_id \<Rightarrow> world \<Rightarrow> safety_check \<times> world" where
  "audit_interpretability th an aid w =
     (let w' = send_message th aid Interpretability_audit ''safety_audit'' w;
          interpretability_score = calculate_interpretability_score an aid;
          (st0, sv0) = (''passed'', ''low'');
          (st1, sv1) = (if interpretability_score < medium (alert_thresholds th)
                        then (''warning'', ''medium'') else (st0, sv0));
          (st2, sv2) = (if interpretability_score < high (alert_thresholds th)
                        then (''failed'', ''high'') else (st1, sv1))
      in (\<lparr>check_type = ''interpretability'', check_status = st2, severity = sv2\<rparr>, w'))"

definition audit_containment :: "themis \<Rightarrow> analysis \<Rightarrow> agent_id \<Rightarrow> safety_check" where
  "audit_containment th an aid =
     (let containment_score = assess_containment an aid;
          (st0, sv0) = (''passed'', ''low'');
          (st1, sv1) = (if containment_score < high (alert_thresholds th)
                        then (''failed'', ''critical'') else (st0, sv0))
      in \<lparr>check_type = ''containment'', check_status = st1, severity = sv1\<rparr>)"

definition exercise_veto_power :: "themis \<Rightarrow> agent_id \<Rightarrow> safety_check list \<Rightarrow> world \<Rightarrow> world" where
  "exercise_veto_power th aid violations w =
     (let w' = send_message th aid (Emergency_halt violations) ''emergency_command'' w
      in broadcast_to_subordinates th (Veto_notification (str_agent_id aid)) ''safety_alert'' w')"

definition trigger_safety_alert :: "themis \<Rightarrow> safety_check list \<Rightarrow> agent_id \<Rightarrow> world \<Rightarrow> world" where
  "trigger_safety_alert th violations aid w =
     (let alert = Safety_violation_alert (str_agent_id aid) violations (veto_power_active th);
          w' = (case supervisor th of
                  Some supervisor_id \<Rightarrow> send_message th supervisor_id alert ''safety_alert'' w
                | None \<Rightarrow> w);
          critical_violations = filter (\<lambda>v. severity v = ''critical'') violations
      in if critical_violations \<noteq> [] \<and> veto_power_active th
         then exercise_veto_power th aid critical_violations w'
         else w')"

definition perform_comprehensive_audit ::
  "themis \<Rightarrow> analysis \<Rightarrow> agent_id \<Rightarrow> world \<Rightarrow> safety_check list \<times> themis \<times> world" where
  "perform_comprehensive_audit th an target w =
     (let (behavioral_check, w1) = audit_behavioral_alignment th an target w;
          gaming_check = audit_specification_gaming th an target;
          goal_check = audit_goal_alignment th an target;
          (interpretability_check, w2) = audit_interpretability th an target w1;
          containment_check = audit_containment th an target;
          audit_results = [behavioral_check, gaming_check, goal_check,
                           interpretability_check, containment_check];
          th' = th\<lparr>audit_history := audit_history th @ audit_results\<rparr>;
          critical_failures = filter (\<lambda>check. severity check = ''critical'') audit_results;
          w3 = (if critical_failures \<noteq> []
                then trigger_safety_alert th' critical_failures target w2
                else w2)
      in (audit_results, th', w3))"

section \<open>The agent manager (services/agent_manager.py)\<close>

text \<open>
  \<open>_agents\<close> maps the text of an agent's id to the agent, \<open>_agent_hierarchy\<close> the text
  of an id to the texts of the subordinates' ids (a cache, built by
  \<open>setup_agent_hierarchy\<close>). The bus of the manager is the one in the world.
\<close>

record agent_manager =
  agents :: "string \<rightharpoonup> base_agent"
  agent_hierarchy :: "string \<rightharpoonup> string list"

text \<open>
  \<open>_remove_from_hierarchy\<close> visits every agent of the registry; the visits are
  independent of each other, so their order does not show. Its argument is a key of
  the registry, the text of a UUID, and \<open>AgentId(UUID(agent_id))\<close> is the identifier
  with that text.
\<close>

definition remove_from_hierarchy :: "string \<Rightarrow> agent_manager \<Rightarrow> agent_manager" where
  "remove_from_hierarchy aid mgr =
     mgr\<lparr>agents :=
           (\<lambda>k. map_option
                  (\<lambda>agent. if aid \<in> set (map str_agent_id (subordinates agent))
                            then remove_subordinate (AgentId aid) agent
                            else agent)
                  (agents mgr k)),
         agent_hierarchy :=
           (if aid \<in> dom (agent_hierarchy mgr)
            then (agent_hierarchy mgr)(aid := None)
            else agent_hierarchy mgr)\<rparr>"

definition remove_agent :: "string \<Rightarrow> agent_manager \<Rightarrow> world \<Rightarrow> bool \<times> agent_manager \<times> world" where
  "remove_agent aid mgr w =
     (case agents mgr aid of
        None \<Rightarrow> (False, mgr, w)
      | Some agent \<Rightarrow>
          (let (stopped, w') = stop agent w;
               mgr' = mgr\<lparr>agents := (agents mgr)(aid := None)\<rparr>
           in (True, remove_from_hierarchy aid mgr', w')))"

text \<open>
  The supervision graph of a registry: an edge from the key of an agent to the text of
  each of its subordinates. It is a tree when no node has two parents and there is no
  cycle.
\<close>

definition edges :: "agent_manager \<Rightarrow> (string \<times> string) set" where
  "edges mgr = {(p, c). \<exists>a. agents mgr p = Some a \<and> c \<in> set (map str_agent_id (subordinates a))}"

definition single_parent :: "agent_manager \<Rightarrow> bool" where
  "single_parent mgr = (\<forall>p q c. (p, c) \<in> edges mgr \<and> (q, c) \<in> edges mgr \<longrightarrow> p = q)"

section \<open>Example values\<close>

text \<open>A pending task, and a safety check that rejects.\<close>

definition demo_task :: task where
  "demo_task =
     \<lparr>task_id = TaskId ''t1'', agent_id = AgentId ''a1'', name = ''audit'', description = [],
      priority = HIGH, status = PENDING, created_at = 0, updated_at = 0, completed_at = None,
      result = None, error = None, metadata = []\<rparr>"

definition failed_check :: safety_check where
  "failed_check = \<lparr>check_type = ''policy'', check_status = ''failed'', severity = ''high''\<rparr>"

text \<open>
  Two messages from one sender to one receiver, and a run in which the receiver
  subscribes, both are published and the processor takes two turns.
\<close>

definition demo_m1 :: message_rec where
  "demo_m1 = \<lparr>msg_id = ''m1'', sender_id = AgentId ''s'', receiver_id = AgentId ''r'',
      content = General [], timestamp = 0, message_type = ''general''\<rparr>"

definition demo_m2 :: message_rec where
  "demo_m2 = \<lparr>msg_id = ''m2'', sender_id = AgentId ''s'', receiver_id = AgentId ''r'',
      content = General [], timestamp = 1, message_type = ''general''\<rparr>"

definition demo_events :: "event list" where
  "demo_events = [Subscribe (AgentId ''r'') (Handle_message (AgentId ''r'')),
      Publish demo_m1, Publish demo_m2, Process, Process]"

text \<open>
  An overseer as the manager sets it up: on the bus, supervised by the coordinator,
  with veto power and the thresholds of the constructor; here with one subordinate. A
  world with a new bus. A check of critical severity. The analyses of the source, but
  with an interpretability score of 0.85, above the threshold that fails the check.
\<close>

definition demo_themis :: themis where
  "demo_themis =
     \<lparr>agent_ident = AgentId ''themis'', agent_kind = Some THEMIS, has_event_bus = True,
      is_active = True, subordinates = [AgentId ''sub''],
      supervisor = Some (AgentId ''prometheus''),
      veto_power_active = True, alert_thresholds = initial_thresholds, audit_history = []\<rparr>"

definition demo_world :: world where
  "demo_world =
     \<lparr>event_bus = InMemoryEventBus, uuid4 = (\<lambda>n. replicate n CHR ''i''), utcnow = (\<lambda>n. n)\<rparr>"

definition critical_check :: safety_check where
  "critical_check =
     \<lparr>check_type = ''containment'', check_status = ''failed'', severity = ''critical''\<rparr>"

definition passing_analysis :: analysis where
  "passing_analysis =
     placeholder_analysis\<lparr>calculate_interpretability_score := (\<lambda>_. 85 / 100)\<rparr>"

text \<open>
  A registry of three agents in a chain: \<open>p\<close> supervises \<open>a\<close>, which supervises \<open>b\<close>.
\<close>

definition demo_agent :: "string \<Rightarrow> string list \<Rightarrow> string option \<Rightarrow> base_agent" where
  "demo_agent i subs supervisor_id =
     \<lparr>agent_ident = AgentId i, agent_kind = None, has_event_bus = True, is_active = True,
      subordinates = map AgentId subs, supervisor = map_option AgentId supervisor_id\<rparr>"

definition demo_manager :: agent_manager where
  "demo_manager =
     \<lparr>agents = [''p'' \<mapsto> demo_agent ''p'' [''a''] None,
                 ''a'' \<mapsto> demo_agent ''a'' [''b''] (Some ''p''),
                 ''b'' \<mapsto> demo_agent ''b'' [] (Some ''a'')],
      agent_hierarchy = [''p'' \<mapsto> [''a''], ''a'' \<mapsto> [''b''], ''b'' \<mapsto> []]\<rparr>"

section \<open>The repository\<close>

text \<open>
  C10. For every entity that has an id, \<open>save\<close> succeeds and a following \<open>get_by_id\<close>
  with that id returns the entity, whatever was stored under the id before, so that of
  two saves with the same id the later one is what is read back. \<open>delete\<close> returns
  true exactly when an entity with that id is stored, and afterwards \<open>get_by_id\<close> with
  that id returns nothing. \<open>save\<close> of an entity without an id raises \<open>ValueError\<close>; it
  yields no storage, the old one stays.
\<close>

theorem repository_save_get_delete:
  "(id_attr e = Some i \<longrightarrow>
      (\<exists>st'. save id_attr e st = Inr st' \<and> get_by_id i st' = Some e)) \<and>
   (id_attr e1 = Some i \<and> id_attr e2 = Some i \<longrightarrow>
      (\<exists>st1 st2. save id_attr e1 st = Inr st1 \<and> save id_attr e2 st1 = Inr st2 \<and>
         get_by_id i st2 = Some e2)) \<and>
   (fst (delete j st) \<longleftrightarrow> get_by_id j st \<noteq> None) \<and>
   get_by_id j (snd (delete j st)) = None \<and>
   (id_attr e = None \<longrightarrow> (\<exists>msg. save id_attr e st = Inl (ValueError msg)))"
  by (auto simp: save_def get_by_id_def delete_def)

theorem repository_save_get_delete_witness:
  "task_id_attr demo_task = Some (Task_ident (TaskId ''t1'')) \<and>
   (\<exists>st'. save task_id_attr demo_task InMemoryRepository = Inr st' \<and>
      get_by_id (Task_ident (TaskId ''t1'')) st' = Some demo_task) \<and>
   (\<exists>msg. save (\<lambda>_. None) demo_task InMemoryRepository = Inl (ValueError msg))"
proof -
  have has_id: "task_id_attr demo_task = Some (Task_ident (TaskId ''t1''))"
    by (simp add: task_id_attr_def demo_task_def)
  show ?thesis
    using has_id
      repository_save_get_delete
        [of task_id_attr demo_task "Task_ident (TaskId ''t1'')" InMemoryRepository
          demo_task demo_task "Task_ident (TaskId ''t1'')"]
      repository_save_get_delete
        [of "\<lambda>_. None" demo_task "Task_ident (TaskId ''t1'')" InMemoryRepository
          demo_task demo_task "Task_ident (TaskId ''t1'')"]
    by simp
qed

section \<open>The task state machine\<close>

text \<open>
  C8. Let \<open>cancel_task\<close> be called with the text of an id under which the repository
  holds a task. When the task is Completed, Failed or Cancelled, the call returns false
  and the repository is as before. When it is Pending or InProgress, the call returns
  true, and the repository holds the task, with status Cancelled and nothing else
  changed, under the key it was found at and under the text of its id; reading the task
  again gives this cancelled task.
\<close>

theorem cancel_task_guard:
  assumes "parse_uuid tid = Some u" and "st u = Some t"
  shows "(status t \<in> {COMPLETED, FAILED, CANCELLED} \<longrightarrow>
            cancel_task parse_uuid tid st = (False, st)) \<and>
         (status t \<in> {PENDING, IN_PROGRESS} \<longrightarrow>
            cancel_task parse_uuid tid st =
              (True, st(u \<mapsto> t\<lparr>status := CANCELLED\<rparr>,
                        str_task_id (task_id t) \<mapsto> t\<lparr>status := CANCELLED\<rparr>)) \<and>
            get_task parse_uuid tid (snd (cancel_task parse_uuid tid st)) =
              Some (t\<lparr>status := CANCELLED\<rparr>))"
  using assms
  by (auto simp: cancel_task_def get_task_def get_by_id_def save_def task_id_attr_def Let_def)

theorem cancel_task_guard_witness:
  "cancel_task Some ''t1'' [''t1'' \<mapsto> demo_task\<lparr>status := COMPLETED\<rparr>] =
     (False, [''t1'' \<mapsto> demo_task\<lparr>status := COMPLETED\<rparr>]) \<and>
   get_task Some ''t1'' (snd (cancel_task Some ''t1'' [''t1'' \<mapsto> demo_task])) =
     Some (demo_task\<lparr>status := CANCELLED\<rparr>) \<and>
   fst (cancel_task Some ''t1'' [''t1'' \<mapsto> demo_task])"
proof -
  have pending: "status demo_task = PENDING" and key: "str_task_id (task_id demo_task) = ''t1''"
    by (simp_all add: demo_task_def)
  show ?thesis
    using cancel_task_guard [of Some "''t1''" "''t1''"
        "[''t1'' \<mapsto> demo_task\<lparr>status := COMPLETED\<rparr>]" "demo_task\<lparr>status := COMPLETED\<rparr>"]
      cancel_task_guard [of Some "''t1''" "''t1''" "[''t1'' \<mapsto> demo_task]" demo_task]
    by (auto simp: pending key)
qed

text \<open>
  C5, as the code has it. Let the role action be reached (the first save, if any, and
  the safety checks went through, and no check has status \<open>failed\<close>) and let it raise
  \<open>e\<close>.

  When \<open>e\<close> is an instance of \<open>Exception\<close>, it is caught: the task ends as the task
  marked in progress and then failed with the text of \<open>e\<close>, so its status is Failed and
  its error is that text, and \<open>e\<close> does not leave the call. The call returns, unless the
  save after the handler raises; then what leaves the call is that exception of the
  repository.

  When \<open>e\<close> is not an instance of \<open>Exception\<close>, the handler does not catch it: \<open>e\<close>
  leaves the call, the task stays in progress, and the repository stays as the first
  save left it.
\<close>

theorem execute_task_action_exception:
  assumes "(case repo of None \<Rightarrow> Inr s | Some sv \<Rightarrow> sv (mark_in_progress (clock 0) t0) s) = Inr s1"
    and "checks (mark_in_progress (clock 0) t0) = Inr safety_results"
    and "\<not> list_ex (\<lambda>check. check_status check = ''failed'') safety_results"
    and "action (mark_in_progress (clock 0) t0) = Inl e"
  shows "(isinstance_Exception e \<longrightarrow>
            (\<exists>out s'.
               execute_task repo checks action clock t0 s =
                 (out, mark_failed (str_exn e) (clock 1) (mark_in_progress (clock 0) t0), s') \<and>
               (out = Returned \<or>
                (\<exists>sv x. repo = Some sv \<and>
                   sv (mark_failed (str_exn e) (clock 1) (mark_in_progress (clock 0) t0)) s1 = Inl x \<and>
                   out = Raised x))) \<and>
            status (fst (snd (execute_task repo checks action clock t0 s))) = FAILED \<and>
            error (fst (snd (execute_task repo checks action clock t0 s))) = Some (str_exn e)) \<and>
         (\<not> isinstance_Exception e \<longrightarrow>
            execute_task repo checks action clock t0 s =
              (Raised e, mark_in_progress (clock 0) t0, s1) \<and>
            status (mark_in_progress (clock 0) t0) = IN_PROGRESS)"
proof -
  have exit: "execute_task_try repo checks action clock t0 s =
      (Raised_in_try e, mark_in_progress (clock 0) t0, s1)"
    using assms by (simp add: execute_task_try_def Let_def)
  show ?thesis
    by (auto simp: execute_task_def exit save_and_return_def mark_failed_def mark_in_progress_def
        split: option.splits sum.splits)
qed

theorem execute_task_action_exception_witness:
  "status (fst (snd (execute_task (Some (save task_id_attr)) (\<lambda>_. Inr [])
       (\<lambda>_. Inl (Exception ''boom'')) (\<lambda>n. n) demo_task InMemoryRepository))) = FAILED \<and>
   error (fst (snd (execute_task (Some (save task_id_attr)) (\<lambda>_. Inr [])
       (\<lambda>_. Inl (Exception ''boom'')) (\<lambda>n. n) demo_task InMemoryRepository))) = Some ''boom'' \<and>
   fst (execute_task (Some (save task_id_attr)) (\<lambda>_. Inr [])
       (\<lambda>_. Inl (Exception ''boom'')) (\<lambda>n. n) demo_task InMemoryRepository) = Returned \<and>
   execute_task (Some (save task_id_attr)) (\<lambda>_. Inr [])
       (\<lambda>_. Inl (KeyboardInterrupt [])) (\<lambda>n. n) demo_task InMemoryRepository =
     (Raised (KeyboardInterrupt []), mark_in_progress 0 demo_task,
      InMemoryRepository(''t1'' \<mapsto> mark_in_progress 0 demo_task))"
proof -
  have first_save:
    "(case Some (save task_id_attr) of None \<Rightarrow> Inr InMemoryRepository
      | Some sv \<Rightarrow> sv (mark_in_progress ((\<lambda>n. n) 0) demo_task) InMemoryRepository) =
     Inr (InMemoryRepository(''t1'' \<mapsto> mark_in_progress 0 demo_task))"
    by (simp add: save_def task_id_attr_def mark_in_progress_def demo_task_def)
  have no_failed: "\<not> list_ex (\<lambda>check. check_status check = ''failed'') []"
    by simp
  have returned: "fst (execute_task (Some (save task_id_attr)) (\<lambda>_. Inr [])
       (\<lambda>_. Inl (Exception ''boom'')) (\<lambda>n. n) demo_task InMemoryRepository) = Returned"
    by (simp add: execute_task_def execute_task_try_def save_and_return_def save_def
        task_id_attr_def mark_in_progress_def mark_failed_def Let_def)
  show ?thesis
    using execute_task_action_exception
      [where repo = "Some (save task_id_attr)" and s = InMemoryRepository
        and clock = "\<lambda>n. n" and ?t0.0 = demo_task and checks = "\<lambda>_. Inr []"
        and safety_results = "[]" and action = "\<lambda>_. Inl (Exception ''boom'')"
        and e = "Exception ''boom''",
        OF first_save refl no_failed refl]
      execute_task_action_exception
      [where repo = "Some (save task_id_attr)" and s = InMemoryRepository
        and clock = "\<lambda>n. n" and ?t0.0 = demo_task and checks = "\<lambda>_. Inr []"
        and safety_results = "[]" and action = "\<lambda>_. Inl (KeyboardInterrupt [])"
        and e = "KeyboardInterrupt []",
        OF first_save refl no_failed refl]
      returned
    by auto
qed

text \<open>
  The claim as the specification states it fails: a role action that raises
  \<open>asyncio.CancelledError\<close> is not caught. The exception leaves \<open>execute_task\<close>, the
  task is still in progress with no error recorded, and the one state handed to
  \<open>save\<close> is the in-progress one.
\<close>

theorem execute_task_cancelled_counterexample:
  "(case execute_task (Some recording_save) (\<lambda>_. Inr []) (\<lambda>_. Inl (CancelledError []))
           (\<lambda>n. n) demo_task [] of
      (out, t, saved) \<Rightarrow>
        out = Raised (CancelledError []) \<and> status t = IN_PROGRESS \<and> error t = None \<and>
        map status saved = [IN_PROGRESS])"
  by (simp add: execute_task_def execute_task_try_def recording_save_def mark_in_progress_def
      demo_task_def Let_def)

text \<open>
  C1, as the code has it. A task in a terminal status is left as it is by
  \<open>cancel_task\<close>, which returns false and changes nothing in the repository.
  \<open>execute_task\<close> has no such guard: it never reads the status of the task it is given,
  so what it does to a task in a terminal status is what it does to the same task in any
  other status. Its first step marks the task in progress, and with a repository that
  records what it is handed, that in-progress state is the first one saved.
\<close>

theorem execute_task_ignores_status:
  "execute_task repo checks action clock (t0\<lparr>status := x\<rparr>) s =
     execute_task repo checks action clock t0 s \<and>
   status (mark_in_progress (clock 0) t0) = IN_PROGRESS \<and>
   (\<exists>out t' rest.
      execute_task (Some recording_save) checks action clock t0 saved0 =
        (out, t', saved0 @ mark_in_progress (clock 0) t0 # rest)) \<and>
   (get_task parse_uuid tid st = Some t \<and> terminal (status t) \<longrightarrow>
      cancel_task parse_uuid tid st = (False, st))"
proof -
  have same: "mark_in_progress (clock 0) (t0\<lparr>status := x\<rparr>) = mark_in_progress (clock 0) t0"
    by (simp add: mark_in_progress_def)
  have "execute_task repo checks action clock (t0\<lparr>status := x\<rparr>) s =
     execute_task repo checks action clock t0 s"
    by (simp add: execute_task_def execute_task_try_def same)
  moreover have "status (mark_in_progress (clock 0) t0) = IN_PROGRESS"
    by (simp add: mark_in_progress_def)
  moreover have "\<exists>out t' rest.
      execute_task (Some recording_save) checks action clock t0 saved0 =
        (out, t', saved0 @ mark_in_progress (clock 0) t0 # rest)"
    by (auto simp: execute_task_def execute_task_try_def save_and_return_def recording_save_def
        Let_def split: sum.splits)
  moreover have "get_task parse_uuid tid st = Some t \<and> terminal (status t) \<longrightarrow>
      cancel_task parse_uuid tid st = (False, st)"
    by (cases "status t") (auto simp: cancel_task_def)
  ultimately show ?thesis by blast
qed

theorem execute_task_ignores_status_witness:
  "execute_task None (\<lambda>_. Inr []) (\<lambda>_. Inr []) (\<lambda>n. n) (demo_task\<lparr>status := COMPLETED\<rparr>) () =
     execute_task None (\<lambda>_. Inr []) (\<lambda>_. Inr []) (\<lambda>n. n) demo_task () \<and>
   terminal (status (demo_task\<lparr>status := FAILED\<rparr>)) \<and>
   cancel_task Some ''t1'' [''t1'' \<mapsto> demo_task\<lparr>status := FAILED\<rparr>] =
     (False, [''t1'' \<mapsto> demo_task\<lparr>status := FAILED\<rparr>])"
proof -
  have found: "get_task Some ''t1'' [''t1'' \<mapsto> demo_task\<lparr>status := FAILED\<rparr>] =
      Some (demo_task\<lparr>status := FAILED\<rparr>)"
    by (simp add: get_task_def get_by_id_def)
  show ?thesis
    using found
      execute_task_ignores_status
        [where repo = None and checks = "\<lambda>_. Inr []" and action = "\<lambda>_. Inr []"
          and clock = "\<lambda>n. n" and ?t0.0 = demo_task and x = COMPLETED and s = "()"
          and parse_uuid = Some and tid = "''t1''"
          and st = "[''t1'' \<mapsto> demo_task\<lparr>status := FAILED\<rparr>]"
          and t = "demo_task\<lparr>status := FAILED\<rparr>"]
    by simp
qed

text \<open>
  The claim as the specification states it fails: a Cancelled task handed to
  \<open>execute_task\<close> is saved as in progress, run, and ends Completed.
\<close>

theorem execute_task_terminal_counterexample:
  "terminal (status (demo_task\<lparr>status := CANCELLED\<rparr>)) \<and>
   (case execute_task (Some recording_save) (\<lambda>_. Inr []) (\<lambda>_. Inr []) (\<lambda>n. n)
           (demo_task\<lparr>status := CANCELLED\<rparr>) [] of
      (out, t, saved) \<Rightarrow>
        out = Returned \<and> status t = COMPLETED \<and> map status saved = [IN_PROGRESS, COMPLETED])"
  by (simp add: execute_task_def execute_task_try_def save_and_return_def recording_save_def
      mark_in_progress_def mark_completed_def demo_task_def)

text \<open>
  C2, at the input where the code departs from it. The agent has a repository and its
  safety check rejects the task: \<open>execute_task\<close> returns the task as Failed, and the one
  state it has handed to \<open>save\<close> is the earlier one, in progress. The \<open>return\<close> in the
  \<open>try\<close> block leaves before the save the other paths reach.
\<close>

theorem execute_task_safety_rejection_unsaved:
  "(case execute_task (Some recording_save) (\<lambda>_. Inr [failed_check]) (\<lambda>_. Inr []) (\<lambda>n. n)
           demo_task [] of
      (out, t, saved) \<Rightarrow>
        out = Returned \<and> status t = FAILED \<and> error t = Some ''Safety check failed'' \<and>
        map status saved = [IN_PROGRESS] \<and> last saved \<noteq> t)"
  by (simp add: execute_task_def execute_task_try_def recording_save_def mark_in_progress_def
      mark_failed_def demo_task_def failed_check_def)

text \<open>
  On the other paths that return, the last state handed to \<open>save\<close> is the state of the
  task that is returned: when the safety checks do not reject, the call either returns
  after that save, whether the action returned or the handler caught an exception, or
  it raises an exception that the handler does not catch.
\<close>

lemma execute_task_saves_unless_rejected:
  assumes "\<And>cs. checks (mark_in_progress (clock 0) t0) = Inr cs \<Longrightarrow>
             \<not> list_ex (\<lambda>check. check_status check = ''failed'') cs"
  shows "case execute_task (Some recording_save) checks action clock t0 saved0 of
           (out, t, saved) \<Rightarrow>
             (out = Returned \<and> saved \<noteq> [] \<and> last saved = t) \<or>
             (\<exists>e. out = Raised e \<and> \<not> isinstance_Exception e)"
  using assms
  by (auto simp: execute_task_def execute_task_try_def save_and_return_def recording_save_def
      Let_def split: sum.splits)

section \<open>The event bus\<close>

lemma precedes_in_set: "precedes xs a b \<Longrightarrow> a \<in> set xs \<and> b \<in> set xs"
  by (induction xs) auto

text \<open>In a list without repetition, a sublist keeps the order of the elements it keeps.\<close>

lemma precedes_subseq:
  "subseq ys xs \<Longrightarrow> distinct xs \<Longrightarrow> precedes xs a b \<Longrightarrow> a \<in> set ys \<Longrightarrow> b \<in> set ys \<Longrightarrow>
   precedes ys a b"
proof (induction rule: list_emb.induct)
  case (list_emb_Nil ys)
  then show ?case by simp
next
  case (list_emb_Cons xs ys y)
  from list_emb_Cons.hyps have sub: "set xs \<subseteq> set ys"
    by (auto dest: list_emb_set)
  with list_emb_Cons show ?case by auto
next
  case (list_emb_Cons2 x y xs ys)
  then show ?case
    by (auto dest: precedes_in_set)
qed

lemma bus_inv_step: "bus_inv pub st \<Longrightarrow> bus_inv (pub @ published [e]) (bus_step e st)"
proof (cases st)
  case (Pair bus calls)
  assume "bus_inv pub st"
  then obtain taken where taken: "pub = taken @ message_queue bus" "subseq (map snd calls) taken"
    using Pair by (auto simp: bus_inv_def)
  show ?thesis
  proof (cases e)
    case Process
    show ?thesis
    proof (cases "running bus \<and> message_queue bus \<noteq> []")
      case False
      then show ?thesis using taken Pair Process
        by (auto simp: bus_inv_def message_processor_def split: list.splits)
    next
      case True
      then obtain m rest where q: "message_queue bus = m # rest"
        by (cases "message_queue bus") auto
      have "pub = (taken @ [m]) @ rest"
        using taken q by simp
      moreover have "subseq (map snd calls) (taken @ [m])"
        using taken by (simp add: subseq_rev_drop_many)
      moreover have "subseq (map snd calls @ [m]) (taken @ [m])"
        using taken by (simp add: list_emb_append_mono)
      ultimately show ?thesis using True Pair Process q
        unfolding bus_inv_def
        by (auto simp: message_processor_def split: option.splits intro!: exI[of _ "taken @ [m]"])
    qed
  qed (use taken Pair in \<open>auto simp: bus_inv_def publish_def subscribe_def unsubscribe_def stop_bus_def\<close>)
qed

lemma published_append: "published (xs @ ys) = published xs @ published ys"
  by (induction xs rule: published.induct) auto

lemma bus_inv_run: "bus_inv pub st \<Longrightarrow> bus_inv (pub @ published evs) (run evs st)"
proof (induction evs arbitrary: pub st)
  case Nil
  then show ?case by simp
next
  case (Cons e es)
  have "bus_inv ((pub @ published [e]) @ published es) (run es (bus_step e st))"
    by (rule Cons.IH) (rule bus_inv_step [OF Cons.prems])
  moreover have "published (e # es) = published [e] @ published es"
    using published_append [of "[e]" es] by simp
  ultimately show ?case by simp
qed

lemma calls_subseq_published:
  "subseq (map snd (snd (run evs (InMemoryEventBus, [])))) (published evs)"
proof -
  have "bus_inv [] (InMemoryEventBus, [])"
    by (simp add: bus_inv_def InMemoryEventBus_def)
  from bus_inv_run [OF this, of evs] show ?thesis
    by (auto simp: bus_inv_def intro: subseq_rev_drop_many)
qed

text \<open>
  C6. In every run of a new in-memory bus, for every sender \<open>s\<close> and receiver \<open>r\<close>, the
  messages from \<open>s\<close> to \<open>r\<close> with which callbacks have been called are, in the order of
  the calls, a sublist of the messages from \<open>s\<close> to \<open>r\<close> in publish order. So, the
  published messages having different ids, when \<open>m1\<close> was published before \<open>m2\<close> from
  \<open>s\<close> to \<open>r\<close> and a callback has been called with each, the call with \<open>m1\<close> came
  before the call with \<open>m2\<close>.
\<close>

theorem in_memory_bus_fifo:
  "subseq (filter (from_to s r) (map snd (snd (run evs (InMemoryEventBus, [])))))
          (filter (from_to s r) (published evs)) \<and>
   (distinct (map msg_id (published evs)) \<and> from_to s r m1 \<and> from_to s r m2 \<and>
    precedes (published evs) m1 m2 \<and>
    m1 \<in> snd ` set (snd (run evs (InMemoryEventBus, []))) \<and>
    m2 \<in> snd ` set (snd (run evs (InMemoryEventBus, []))) \<longrightarrow>
    precedes (map snd (snd (run evs (InMemoryEventBus, [])))) m1 m2)"
  using calls_subseq_published [of evs] precedes_subseq [of _ "published evs" m1 m2]
  by (auto simp: distinct_map)

theorem in_memory_bus_fifo_witness:
  "distinct (map msg_id (published demo_events)) \<and>
   from_to (AgentId ''s'') (AgentId ''r'') demo_m1 \<and>
   from_to (AgentId ''s'') (AgentId ''r'') demo_m2 \<and>
   precedes (published demo_events) demo_m1 demo_m2 \<and>
   snd (run demo_events (InMemoryEventBus, [])) =
     [(Handle_message (AgentId ''r''), demo_m1), (Handle_message (AgentId ''r''), demo_m2)] \<and>
   precedes (map snd (snd (run demo_events (InMemoryEventBus, [])))) demo_m1 demo_m2"
proof -
  have calls: "snd (run demo_events (InMemoryEventBus, [])) =
     [(Handle_message (AgentId ''r''), demo_m1), (Handle_message (AgentId ''r''), demo_m2)]"
    by (simp add: demo_events_def InMemoryEventBus_def publish_def subscribe_def
        message_processor_def demo_m1_def demo_m2_def)
  have pub: "published demo_events = [demo_m1, demo_m2]"
    by (simp add: demo_events_def)
  have ids: "distinct (map msg_id (published demo_events))"
    by (simp add: pub demo_m1_def demo_m2_def)
  have pair: "from_to (AgentId ''s'') (AgentId ''r'') demo_m1"
    "from_to (AgentId ''s'') (AgentId ''r'') demo_m2"
    by (simp_all add: from_to_def demo_m1_def demo_m2_def)
  have before: "precedes (published demo_events) demo_m1 demo_m2"
    by (simp add: pub)
  have called: "demo_m1 \<in> snd ` set (snd (run demo_events (InMemoryEventBus, [])))"
    "demo_m2 \<in> snd ` set (snd (run demo_events (InMemoryEventBus, [])))"
    by (simp_all add: calls)
  show ?thesis
    using in_memory_bus_fifo [of "AgentId ''s''" "AgentId ''r''" demo_events demo_m1 demo_m2]
      calls ids pair before called
    by blast
qed

lemma run_publishes:
  "run (map Publish ms) (bus, calls) =
     (bus\<lparr>message_queue := message_queue bus @ ms, running := (ms \<noteq> [] \<or> running bus)\<rparr>, calls)"
  by (induction ms arbitrary: bus) (auto simp: publish_def)

lemma run_append: "run (xs @ ys) st = run ys (run xs st)"
  by (induction xs arbitrary: st) auto

text \<open>
  Delivery. As many turns of the processor as there are waiting messages empty the
  queue of a running bus, and call, in queue order, the callback of every message whose
  receiver is subscribed. So a receiver that subscribes first is called with all the
  messages then published to it, in publish order.
\<close>

lemma process_waiting:
  "running bus \<Longrightarrow>
   run (replicate (length (message_queue bus)) Process) (bus, calls) =
     (bus\<lparr>message_queue := []\<rparr>,
      calls @ List.map_filter
        (\<lambda>m. map_option (\<lambda>cb. (cb, m)) (subscribers bus (str_agent_id (receiver_id m))))
        (message_queue bus))"
proof (induction "message_queue bus" arbitrary: bus calls)
  case Nil
  then show ?case by (simp add: List.map_filter_simps)
next
  case (Cons m rest)
  from Cons.hyps(2) have q: "message_queue bus = m # rest" by simp
  have rest: "rest = message_queue (bus\<lparr>message_queue := rest\<rparr>)" by simp
  have run': "running (bus\<lparr>message_queue := rest\<rparr>)" using Cons.prems by simp
  show ?case
    using Cons.hyps(1) [OF rest run'] Cons.prems
    by (cases "subscribers bus (str_agent_id (receiver_id m))")
      (simp_all add: q message_processor_def List.map_filter_simps)
qed

lemma subscribed_receiver_gets_all:
  assumes "\<forall>m \<in> set ms. receiver_id m = r"
  shows "snd (run (Subscribe r cb # map Publish ms @ replicate (length ms) Process)
            (InMemoryEventBus, [])) = map (Pair cb) ms"
proof (cases "ms = []")
  case True
  then show ?thesis by simp
next
  case False
  let ?bus = "(subscribe r cb InMemoryEventBus)\<lparr>message_queue := ms, running := True\<rparr>"
  have pub: "run (map Publish ms) (subscribe r cb InMemoryEventBus, []) = (?bus, [])"
    using False by (simp add: run_publishes subscribe_def InMemoryEventBus_def)
  have "List.map_filter
        (\<lambda>m. map_option (\<lambda>cb. (cb, m)) (subscribers ?bus (str_agent_id (receiver_id m)))) ms =
      map (Pair cb) ms"
    using assms by (induction ms) (auto simp: List.map_filter_simps subscribe_def)
  with process_waiting [of ?bus "[]"]
  have "snd (run (replicate (length ms) Process) (?bus, [])) = map (Pair cb) ms"
    by simp
  then show ?thesis
    by (simp add: run_append pub)
qed

lemma waiting_after_publishes:
  "length (filter P (message_queue (fst (run (replicate n (Publish m)) (bus, calls))))) =
     length (filter P (message_queue bus)) + (if P m then n else 0)"
  using run_publishes [of "replicate n m" bus calls] by simp

text \<open>
  C7, as the code has it. The bus holds the published messages in one queue for all
  receivers, and the queue has no bound: a publish appends its message behind the
  waiting ones, however many there are, and changes no subscription; any number of
  publishes in a row leaves all their messages waiting, in order. No publish fails,
  waits or drops its message; there is no capacity error.
\<close>

theorem publish_unbounded:
  "message_queue (publish m bus) = message_queue bus @ [m] \<and>
   subscribers (publish m bus) = subscribers bus \<and>
   run (map Publish ms) (bus, calls) =
     (bus\<lparr>message_queue := message_queue bus @ ms,
          running := (if ms = [] then running bus else True)\<rparr>, calls)"
  by (simp add: run_publishes) (simp add: publish_def)

text \<open>
  The claim as the specification states it fails: no capacity bounds the messages
  waiting for one receiver. Publishing the same message to receiver \<open>r\<close> one more time
  than a supposed capacity leaves that many messages to \<open>r\<close> in the queue.
\<close>

theorem bounded_queue_counterexample:
  "\<not> (\<exists>capacity. \<forall>n.
        length (filter (\<lambda>m. receiver_id m = AgentId ''r'')
          (message_queue (fst (run (replicate n (Publish demo_m1)) (InMemoryEventBus, [])))))
        \<le> capacity)"
proof
  assume "\<exists>capacity. \<forall>n.
        length (filter (\<lambda>m. receiver_id m = AgentId ''r'')
          (message_queue (fst (run (replicate n (Publish demo_m1)) (InMemoryEventBus, [])))))
        \<le> capacity"
  then obtain capacity where "\<forall>n.
        length (filter (\<lambda>m. receiver_id m = AgentId ''r'')
          (message_queue (fst (run (replicate n (Publish demo_m1)) (InMemoryEventBus, [])))))
        \<le> capacity" ..
  then have "length (filter (\<lambda>m. receiver_id m = AgentId ''r'')
          (message_queue (fst (run (replicate (Suc capacity) (Publish demo_m1)) (InMemoryEventBus, [])))))
        \<le> capacity" ..
  moreover have "receiver_id demo_m1 = AgentId ''r''"
    by (simp add: demo_m1_def)
  ultimately show False
    by (simp only: waiting_after_publishes) (simp add: InMemoryEventBus_def)
qed

section \<open>The safety interlock\<close>

text \<open>What each sending operation adds to the outbox.\<close>

lemma outbox_send_message:
  "outbox (send_message a r c mt w) =
     outbox w @ (if has_event_bus a then [(agent_ident a, r, mt, c)] else [])"
  by (simp add: outbox_def send_message_def Message_def publish_def envelope_def)

lemma outbox_send_each:
  "outbox (send_each a subs c mt w) =
     outbox w @ (if has_event_bus a then map (\<lambda>sub. (agent_ident a, sub, mt, c)) subs else [])"
  by (induction subs arbitrary: w) (auto simp: outbox_send_message)

lemma outbox_exercise_veto_power:
  "outbox (exercise_veto_power th aid vs w) =
     outbox w @ (if has_event_bus th
       then (agent_ident th, aid, ''emergency_command'', Emergency_halt vs) #
            map (\<lambda>sub. (agent_ident th, sub, ''safety_alert'', Veto_notification (str_agent_id aid)))
              (subordinates th)
       else [])"
  by (simp add: exercise_veto_power_def broadcast_to_subordinates_def outbox_send_each
      outbox_send_message)

lemma outbox_trigger_safety_alert:
  "outbox (trigger_safety_alert th vs aid w) =
     outbox w @
     (if has_event_bus th then
        (case supervisor th of
           None \<Rightarrow> []
         | Some s \<Rightarrow> [(agent_ident th, s, ''safety_alert'',
               Safety_violation_alert (str_agent_id aid) vs (veto_power_active th))]) @
        (if filter (\<lambda>v. severity v = ''critical'') vs \<noteq> [] \<and> veto_power_active th then
           (agent_ident th, aid, ''emergency_command'',
              Emergency_halt (filter (\<lambda>v. severity v = ''critical'') vs)) #
           map (\<lambda>sub. (agent_ident th, sub, ''safety_alert'', Veto_notification (str_agent_id aid)))
             (subordinates th)
         else [])
      else [])"
  by (simp add: trigger_safety_alert_def Let_def outbox_exercise_veto_power outbox_send_message
      split: option.splits)

lemma send_message_no_bus: "\<not> has_event_bus a \<Longrightarrow> send_message a r c mt w = w"
  by (simp add: send_message_def)

lemma send_each_no_bus: "\<not> has_event_bus a \<Longrightarrow> send_each a subs c mt w = w"
  by (induction subs arbitrary: w) (auto simp: send_message_no_bus)

lemma trigger_safety_alert_no_bus:
  "\<not> has_event_bus th \<Longrightarrow> trigger_safety_alert th vs aid w = w"
  by (simp add: trigger_safety_alert_def exercise_veto_power_def broadcast_to_subordinates_def
      send_message_no_bus send_each_no_bus Let_def split: option.splits)

text \<open>
  C4, as the code has it, for an overseer on the in-memory bus. Let the batch of
  violations hold at least one check of critical severity.

  An overseer that is configured with the bus publishes through \<open>_trigger_safety_alert\<close>,
  in this order: the alert with the whole batch to the supervisor, when the overseer has
  one; and, when veto power is active, one \<open>emergency_command\<close> with the critical checks
  to the audited agent, followed by one \<open>safety_alert\<close> notification to each
  subordinate. With veto power active exactly one \<open>emergency_command\<close> is published,
  without it none.

  An overseer that has no event bus publishes nothing: the world is as it was.
\<close>

theorem critical_violation_veto:
  assumes "list_ex (\<lambda>v. severity v = ''critical'') violations"
  shows "(has_event_bus th \<longrightarrow>
            outbox (trigger_safety_alert th violations aid w) =
              outbox w @
              (case supervisor th of
                 None \<Rightarrow> []
               | Some s \<Rightarrow> [(agent_ident th, s, ''safety_alert'',
                     Safety_violation_alert (str_agent_id aid) violations (veto_power_active th))]) @
              (if veto_power_active th then
                 (agent_ident th, aid, ''emergency_command'',
                    Emergency_halt (filter (\<lambda>v. severity v = ''critical'') violations)) #
                 map (\<lambda>sub. (agent_ident th, sub, ''safety_alert'',
                        Veto_notification (str_agent_id aid))) (subordinates th)
               else []) \<and>
            length (filter (\<lambda>(s, r, mt, c). mt = ''emergency_command'')
              (drop (length (outbox w)) (outbox (trigger_safety_alert th violations aid w)))) =
              (if veto_power_active th then 1 else 0)) \<and>
         (\<not> has_event_bus th \<longrightarrow> trigger_safety_alert th violations aid w = w)"
proof -
  have crit: "filter (\<lambda>v. severity v = ''critical'') violations \<noteq> []"
    using assms by (simp add: list_ex_iff filter_empty_conv)
  have no_halt: "filter (\<lambda>(s, r, mt, c). mt = ''emergency_command'')
      (map (\<lambda>sub. (agent_ident th, sub, ''safety_alert'', Veto_notification (str_agent_id aid))) subs) = []"
    for subs
    by (induction subs) auto
  show ?thesis
    using crit
    by (auto simp: outbox_trigger_safety_alert trigger_safety_alert_no_bus no_halt
        split: option.splits)
qed

theorem critical_violation_veto_witness:
  "has_event_bus demo_themis \<and>
   list_ex (\<lambda>v. severity v = ''critical'') [critical_check] \<and>
   outbox (trigger_safety_alert demo_themis [critical_check] (AgentId ''target'') demo_world) =
     [(AgentId ''themis'', AgentId ''prometheus'', ''safety_alert'',
         Safety_violation_alert ''target'' [critical_check] True),
      (AgentId ''themis'', AgentId ''target'', ''emergency_command'', Emergency_halt [critical_check]),
      (AgentId ''themis'', AgentId ''sub'', ''safety_alert'', Veto_notification ''target'')] \<and>
   outbox (trigger_safety_alert (demo_themis\<lparr>veto_power_active := False\<rparr>) [critical_check]
       (AgentId ''target'') demo_world) =
     [(AgentId ''themis'', AgentId ''prometheus'', ''safety_alert'',
         Safety_violation_alert ''target'' [critical_check] False)] \<and>
   trigger_safety_alert (demo_themis\<lparr>has_event_bus := False\<rparr>) [critical_check]
       (AgentId ''target'') demo_world = demo_world"
proof -
  have bus: "has_event_bus demo_themis" "has_event_bus (demo_themis\<lparr>veto_power_active := False\<rparr>)"
    "\<not> has_event_bus (demo_themis\<lparr>has_event_bus := False\<rparr>)"
    by (simp_all add: demo_themis_def)
  have crit: "list_ex (\<lambda>v. severity v = ''critical'') [critical_check]"
    by (simp add: critical_check_def)
  have empty: "outbox demo_world = []"
    by (simp add: outbox_def demo_world_def InMemoryEventBus_def)
  have fields: "supervisor demo_themis = Some (AgentId ''prometheus'')"
    "subordinates demo_themis = [AgentId ''sub'']" "agent_ident demo_themis = AgentId ''themis''"
    "veto_power_active demo_themis"
    by (simp_all add: demo_themis_def)
  have severity: "severity critical_check = ''critical''"
    by (simp add: critical_check_def)
  show ?thesis
    using critical_violation_veto [OF crit, of demo_themis "AgentId ''target''" demo_world]
      critical_violation_veto [OF crit, of "demo_themis\<lparr>veto_power_active := False\<rparr>"
        "AgentId ''target''" demo_world]
      critical_violation_veto [OF crit, of "demo_themis\<lparr>has_event_bus := False\<rparr>"
        "AgentId ''target''" demo_world]
    by (simp add: bus crit empty fields severity)
qed

text \<open>
  The claim as the specification states it fails in two ways. An overseer that has no
  event bus publishes nothing, whatever the batch and the veto flag. An overseer that
  has no supervisor publishes the halt and the notifications, and no report.
\<close>

theorem veto_counterexample:
  "list_ex (\<lambda>v. severity v = ''critical'') [critical_check] \<and>
   veto_power_active demo_themis \<and>
   outbox (trigger_safety_alert (demo_themis\<lparr>has_event_bus := False\<rparr>) [critical_check]
      (AgentId ''target'') demo_world) = [] \<and>
   outbox (trigger_safety_alert (demo_themis\<lparr>supervisor := None\<rparr>) [critical_check]
      (AgentId ''target'') demo_world) =
     [(AgentId ''themis'', AgentId ''target'', ''emergency_command'', Emergency_halt [critical_check]),
      (AgentId ''themis'', AgentId ''sub'', ''safety_alert'', Veto_notification ''target'')]"
  by (simp add: trigger_safety_alert_def exercise_veto_power_def broadcast_to_subordinates_def
      send_message_def Message_def publish_def outbox_def envelope_def demo_themis_def
      demo_world_def critical_check_def InMemoryEventBus_def)

text \<open>
  C3, at an input where the code departs from it. The alignment score is the 0.85 of
  the source and every check has status \<open>passed\<close>. The audit returns five checks; the
  first has severity \<open>critical\<close>, because an alignment score below the \<open>critical\<close>
  threshold 0.9 sets that severity whatever the status. So the audit publishes, after
  its two audit requests, the alert to the supervisor, the emergency halt to the
  audited agent and the notification to the subordinate.
\<close>

theorem audit_all_passed_still_alerts:
  "(case perform_comprehensive_audit demo_themis passing_analysis (AgentId ''target'') demo_world of
      (results, th', w') \<Rightarrow>
        length results = 5 \<and>
        map check_status results = [''passed'', ''passed'', ''passed'', ''passed'', ''passed''] \<and>
        map severity results = [''critical'', ''low'', ''low'', ''low'', ''low''] \<and>
        outbox w' =
          [(AgentId ''themis'', AgentId ''target'', ''safety_audit'', Behavior_audit_request ''target''),
           (AgentId ''themis'', AgentId ''target'', ''safety_audit'', Interpretability_audit),
           (AgentId ''themis'', AgentId ''prometheus'', ''safety_alert'',
              Safety_violation_alert ''target''
                [\<lparr>check_type = ''behavioral_alignment'', check_status = ''passed'',
                   severity = ''critical''\<rparr>] True),
           (AgentId ''themis'', AgentId ''target'', ''emergency_command'',
              Emergency_halt
                [\<lparr>check_type = ''behavioral_alignment'', check_status = ''passed'',
                   severity = ''critical''\<rparr>]),
           (AgentId ''themis'', AgentId ''sub'', ''safety_alert'', Veto_notification ''target'')])"
  by (simp add: perform_comprehensive_audit_def audit_behavioral_alignment_def
      audit_specification_gaming_def audit_goal_alignment_def audit_interpretability_def
      audit_containment_def trigger_safety_alert_def exercise_veto_power_def
      broadcast_to_subordinates_def send_message_def Message_def publish_def outbox_def
      envelope_def demo_themis_def demo_world_def passing_analysis_def placeholder_analysis_def
      initial_thresholds_def InMemoryEventBus_def Let_def)

text \<open>
  With the scores of the source as they are, the interpretability check fails (0.75 is
  below 0.8) and the behavioural check is again critical with status \<open>passed\<close>.
\<close>

lemma audit_with_placeholder_scores:
  "(case perform_comprehensive_audit demo_themis placeholder_analysis (AgentId ''target'') demo_world of
      (results, th', w') \<Rightarrow>
        map check_status results = [''passed'', ''passed'', ''passed'', ''failed'', ''passed''] \<and>
        map severity results = [''critical'', ''low'', ''low'', ''high'', ''low''] \<and>
        audit_history th' = results \<and> length (outbox w') = 5)"
  by (simp add: perform_comprehensive_audit_def audit_behavioral_alignment_def
      audit_specification_gaming_def audit_goal_alignment_def audit_interpretability_def
      audit_containment_def trigger_safety_alert_def exercise_veto_power_def
      broadcast_to_subordinates_def send_message_def Message_def publish_def outbox_def
      envelope_def demo_themis_def demo_world_def placeholder_analysis_def
      initial_thresholds_def InMemoryEventBus_def Let_def)

section \<open>The supervision registry\<close>

lemma agent_id_str: "AgentId (str_agent_id x) = x"
  by (cases x) simp

lemma in_str_subordinates: "aid \<in> str_agent_id ` set subs \<longleftrightarrow> AgentId aid \<in> set subs"
  by (force simp: agent_id_str)

text \<open>
  After \<open>_remove_from_hierarchy\<close> every agent has lost the first occurrence of the
  removed identifier in its list of subordinates, and nothing else.
\<close>

lemma agents_remove_from_hierarchy:
  "agents (remove_from_hierarchy aid mgr) k =
     map_option (\<lambda>agent. agent\<lparr>subordinates := remove1 (AgentId aid) (subordinates agent)\<rparr>)
       (agents mgr k)"
proof (cases "agents mgr k")
  case None
  then show ?thesis by (simp add: remove_from_hierarchy_def)
next
  case (Some agent)
  have "AgentId aid \<notin> set (subordinates agent) \<Longrightarrow>
      agent\<lparr>subordinates := remove1 (AgentId aid) (subordinates agent)\<rparr> = agent"
    by (simp add: remove1_idem)
  with Some show ?thesis
    by (simp add: remove_from_hierarchy_def remove_subordinate_def in_str_subordinates)
qed

lemma remove_agent_result:
  "agents mgr aid = Some a \<Longrightarrow>
   remove_agent aid mgr w =
     (True, remove_from_hierarchy aid (mgr\<lparr>agents := (agents mgr)(aid := None)\<rparr>), snd (stop a w))"
  by (simp add: remove_agent_def Let_def split: prod.splits)

lemma edges_remove_agent:
  "edges (remove_from_hierarchy aid (mgr\<lparr>agents := (agents mgr)(aid := None)\<rparr>)) \<subseteq> edges mgr"
proof -
  have "c \<in> set (map str_agent_id (remove1 x subs)) \<Longrightarrow> c \<in> set (map str_agent_id subs)"
    for c x and subs :: "agent_id list"
    using set_remove1_subset [of x subs] by auto
  then show ?thesis
    by (auto simp: edges_def agents_remove_from_hierarchy simp del: set_map split: if_splits)
qed

text \<open>
  The two mutators of the edges that the registry calls when it builds the hierarchy:
  \<open>add_subordinate\<close> never enters an identifier twice, and \<open>set_supervisor\<close> always
  leaves a supervisor set.
\<close>

lemma add_subordinate_distinct:
  "distinct (subordinates a) \<Longrightarrow> distinct (subordinates (add_subordinate sub a))"
  by (simp add: add_subordinate_def)

lemma set_supervisor_sets: "supervisor (set_supervisor supervisor_id a) = Some supervisor_id"
  by (simp add: set_supervisor_def)

lemma demo_edges: "edges demo_manager = {(''p'', ''a''), (''a'', ''b'')}"
  by (auto simp: edges_def demo_manager_def demo_agent_def split: if_splits)

text \<open>
  C9, as the code has it. Let the agent be in the registry and let no list of
  subordinates hold an identifier twice (\<open>add_subordinate\<close> keeps it so). Removing the
  agent returns true and takes it out of the registry; every remaining agent has lost
  the removed identifier from its list of subordinates and has kept the rest of the
  list and its supervisor pointer as they were. The supervision graph of the remaining
  registry is a part of the graph before: it is acyclic and has at most one parent per
  node when the graph before was so.
\<close>

theorem remove_agent_hierarchy:
  assumes "agents mgr aid = Some a"
    and "\<forall>k b. agents mgr k = Some b \<longrightarrow> distinct (subordinates b)"
    and "acyclic (edges mgr)" and "single_parent mgr"
  shows "\<exists>mgr' w'. remove_agent aid mgr w = (True, mgr', w') \<and>
           agents mgr' aid = None \<and>
           (\<forall>k b. agents mgr' k = Some b \<longrightarrow>
              AgentId aid \<notin> set (subordinates b) \<and>
              (\<exists>b0. agents mgr k = Some b0 \<and> k \<noteq> aid \<and>
                 subordinates b = remove1 (AgentId aid) (subordinates b0) \<and>
                 supervisor b = supervisor b0)) \<and>
           edges mgr' \<subseteq> edges mgr \<and> acyclic (edges mgr') \<and> single_parent mgr'"
proof -
  let ?mgr' = "remove_from_hierarchy aid (mgr\<lparr>agents := (agents mgr)(aid := None)\<rparr>)"
  have res: "remove_agent aid mgr w = (True, ?mgr', snd (stop a w))"
    by (rule remove_agent_result [OF assms(1)])
  have gone: "agents ?mgr' aid = None"
    by (simp add: agents_remove_from_hierarchy)
  have rest: "AgentId aid \<notin> set (subordinates b) \<and>
              (\<exists>b0. agents mgr k = Some b0 \<and> k \<noteq> aid \<and>
                 subordinates b = remove1 (AgentId aid) (subordinates b0) \<and>
                 supervisor b = supervisor b0)" if "agents ?mgr' k = Some b" for k b
  proof -
    from that obtain b0 where b0: "agents mgr k = Some b0" "k \<noteq> aid"
      "b = b0\<lparr>subordinates := remove1 (AgentId aid) (subordinates b0)\<rparr>"
      by (auto simp: agents_remove_from_hierarchy split: if_splits)
    from assms(2) b0(1) have "distinct (subordinates b0)" by blast
    then show ?thesis using b0 by simp
  qed
  have sub: "edges ?mgr' \<subseteq> edges mgr"
    by (rule edges_remove_agent)
  have acyc: "acyclic (edges ?mgr')"
    using assms(3) sub by (rule acyclic_subset)
  have single: "single_parent ?mgr'"
    using assms(4) sub unfolding single_parent_def by blast
  show ?thesis
    using res gone rest sub acyc single by blast
qed

theorem remove_agent_hierarchy_witness:
  "agents demo_manager ''a'' = Some (demo_agent ''a'' [''b''] (Some ''p'')) \<and>
   acyclic (edges demo_manager) \<and> single_parent demo_manager \<and>
   fst (remove_agent ''a'' demo_manager demo_world) \<and>
   map_option subordinates
     (agents (fst (snd (remove_agent ''a'' demo_manager demo_world))) ''p'') = Some [] \<and>
   acyclic (edges (fst (snd (remove_agent ''a'' demo_manager demo_world))))"
proof -
  have registered: "agents demo_manager ''a'' = Some (demo_agent ''a'' [''b''] (Some ''p''))"
    by (simp add: demo_manager_def)
  have no_repeats: "\<forall>k b. agents demo_manager k = Some b \<longrightarrow> distinct (subordinates b)"
    by (auto simp: demo_manager_def demo_agent_def split: if_splits)
  have acyc: "acyclic (edges demo_manager)"
    by (simp add: demo_edges rtrancl_insert acyclic_def [of "{}"])
  have single: "single_parent demo_manager"
    by (auto simp: single_parent_def demo_edges)
  have p: "map_option subordinates
      (agents (fst (snd (remove_agent ''a'' demo_manager demo_world))) ''p'') = Some []"
    by (simp add: remove_agent_def remove_from_hierarchy_def stop_def demo_manager_def
      demo_agent_def Let_def remove_subordinate_def)
  show ?thesis
    using remove_agent_hierarchy [OF registered no_repeats acyc single, of demo_world]
      registered acyc single p
    by auto
qed

text \<open>
  The claim as the specification states it fails: after the removal of \<open>a\<close>, its
  former subordinate \<open>b\<close> still has \<open>a\<close> as its supervisor, and the cached hierarchy
  still lists \<open>a\<close> under \<open>p\<close>.
\<close>

theorem remove_agent_counterexample:
  "(case remove_agent ''a'' demo_manager demo_world of
      (removed, mgr', w') \<Rightarrow>
        removed \<and> agents mgr' ''a'' = None \<and>
        map_option supervisor (agents mgr' ''b'') = Some (Some (AgentId ''a'')) \<and>
        agent_hierarchy mgr' ''p'' = Some [''a''])"
  by (simp add: remove_agent_def remove_from_hierarchy_def stop_def demo_manager_def
      demo_agent_def Let_def)

end
